theory Spec2Isabelle
  imports Complex_Main
begin

section \<open>Data model\<close>

text \<open>
  The decoders of \<^verbatim>\<open>qec_lab.codes\<close> work on Qiskit counts dictionaries
  (\<^verbatim>\<open>dict[str, int]\<close>): an outcome key is a Python string, a frequency a Python
  integer. A dictionary is iterated in insertion order, so it is an association list of
  (key, shots) pairs here. Every \<^verbatim>\<open>raise ValueError(msg)\<close> of the source is the value
  \<open>Inl (ValueError msg)\<close>.

  The rate returned is the Python true division of two integers, which is the correctly
  rounded exact quotient; the model keeps the exact quotient as a rational number.
\<close>

datatype error = ValueError string

type_synonym counts = "(string \<times> int) list"

definition unsupported_state :: error where
  "unsupported_state = ValueError ''Only logical states '0' and '1' are supported.''"

text \<open>\<^verbatim>\<open>int(logical_state)\<close>, called only after the membership test in \<open>{"0", "1"}\<close>.\<close>

definition int_of_state :: "string \<Rightarrow> int" where
  "int_of_state logical_state = (if logical_state = ''1'' then 1 else 0)"

text \<open>\<^verbatim>\<open>s.count("1")\<close> on a string: the number of characters equal to \<open>1\<close>.\<close>

definition count_ones :: "string \<Rightarrow> nat" where
  "count_ones s = count_list s CHR ''1''"

text \<open>
  The slices of the source, all with non-negative bounds: \<^verbatim>\<open>s[a : a + n]\<close> is
  \<open>take n (drop a s)\<close>, \<^verbatim>\<open>s[::-1]\<close> is \<open>rev s\<close>, \<^verbatim>\<open>s[:n]\<close> is \<open>take n s\<close>, and
  \<^verbatim>\<open>s[a::k]\<close> is \<open>every_kth k (drop a s)\<close>. Python slices never raise: out of
  range they are cut short, as \<open>take\<close> and \<open>drop\<close> are.
\<close>

fun every_kth :: "nat \<Rightarrow> 'a list \<Rightarrow> 'a list" where
  "every_kth k [] = []"
| "every_kth k (x # xs) = x # every_kth k (drop (k - 1) xs)"

text \<open>
  The aggregation loop, which the four \<^verbatim>\<open>logical_error_rate_from_counts\<close> methods
  share word for word but for the computation of \<^verbatim>\<open>logical_out\<close>:
  \<^verbatim>\<open>for bitstring, shots in counts.items():
      logical_out = ...
      if logical_out != expected_logical:
          logical_errors += shots\<close>
  The decoder is a parameter; it may raise, which ends the loop.
\<close>

fun tally :: "(string \<Rightarrow> error + int) \<Rightarrow> int \<Rightarrow> counts \<Rightarrow> int \<Rightarrow> error + int" where
  "tally decode expected_logical [] logical_errors = Inr logical_errors"
| "tally decode expected_logical ((bitstring, shots) # rest) logical_errors =
     (case decode bitstring of
        Inl e \<Rightarrow> Inl e
      | Inr logical_out \<Rightarrow>
          tally decode expected_logical rest
            (if logical_out \<noteq> expected_logical then logical_errors + shots
             else logical_errors))"

text \<open>
  The frame around the loop, again the same in the four methods: the check of
  \<^verbatim>\<open>logical_state\<close>, \<^verbatim>\<open>total_shots = sum(counts.values())\<close>, the loop, and after
  the loop the test \<^verbatim>\<open>total_shots == 0\<close> before the division.
\<close>

definition error_rate :: "(string \<Rightarrow> error + int) \<Rightarrow> counts \<Rightarrow> string \<Rightarrow> error + rat" where
  "error_rate decode cnts logical_state =
     (if logical_state \<notin> {''0'', ''1''} then Inl unsupported_state
      else
        let expected_logical = int_of_state logical_state;
            total_shots = sum_list (map snd cnts)
        in case tally decode expected_logical cnts 0 of
             Inl e \<Rightarrow> Inl e
           | Inr logical_errors \<Rightarrow>
               if total_shots = 0 then Inr 0
               else Inr (of_int logical_errors / of_int total_shots))"

section \<open>The four decoders\<close>

subsection \<open>RepetitionCode3\<close>

definition RepetitionCode3_logical_out :: "string \<Rightarrow> int" where
  "RepetitionCode3_logical_out bitstring =
     (let ones = count_ones bitstring in if ones \<ge> 2 then 1 else 0)"

definition RepetitionCode3_logical_error_rate_from_counts ::
  "counts \<Rightarrow> string \<Rightarrow> error + rat" where
  "RepetitionCode3_logical_error_rate_from_counts =
     error_rate (\<lambda>bitstring. Inr (RepetitionCode3_logical_out bitstring))"

subsection \<open>ShorCode9\<close>

definition ShorCode9_logical_out :: "string \<Rightarrow> int" where
  "ShorCode9_logical_out bitstring =
     (let bits = rev bitstring;
          block_values =
            map (\<lambda>start. let block = take 3 (drop start bits); ones = count_ones block
                         in if ones \<ge> 2 then (1::int) else 0) [0, 3, 6]
      in if count_list block_values 1 \<ge> 2 then 1 else 0)"

definition ShorCode9_logical_error_rate_from_counts ::
  "counts \<Rightarrow> string \<Rightarrow> error + rat" where
  "ShorCode9_logical_error_rate_from_counts =
     error_rate (\<lambda>bitstring. Inr (ShorCode9_logical_out bitstring))"

subsection \<open>RotatedSurfaceCodeD3\<close>

definition RotatedSurfaceCodeD3_logical_out :: "string \<Rightarrow> int" where
  "RotatedSurfaceCodeD3_logical_out bitstring =
     (let bits = rev bitstring;
          data_bits = take 9 bits;
          rows = map (\<lambda>start. if count_ones (take 3 (drop start data_bits)) \<ge> 2
                               then (1::int) else 0) [0, 3, 6];
          cols = map (\<lambda>start. if count_ones (take 3 (every_kth 3 (drop start data_bits))) \<ge> 2
                               then (1::int) else 0) [0, 1, 2];
          votes = rows @ cols
      in if count_list votes 1 \<ge> 3 then 1 else 0)"

definition RotatedSurfaceCodeD3_logical_error_rate_from_counts ::
  "counts \<Rightarrow> string \<Rightarrow> error + rat" where
  "RotatedSurfaceCodeD3_logical_error_rate_from_counts =
     error_rate (\<lambda>bitstring. Inr (RotatedSurfaceCodeD3_logical_out bitstring))"

subsection \<open>SteaneCode7\<close>

definition EVEN_CODEWORDS :: "string list" where
  "EVEN_CODEWORDS =
     [''0000000'', ''1010101'', ''0110011'', ''1100110'',
      ''0001111'', ''1011010'', ''0111100'', ''1101001'']"

definition ODD_CODEWORDS :: "string list" where
  "ODD_CODEWORDS =
     map (\<lambda>cw. map (\<lambda>b. if b = CHR ''0'' then CHR ''1'' else CHR ''0'') cw) EVEN_CODEWORDS"

definition SteaneCode7_n_physical :: nat where
  "SteaneCode7_n_physical = 7"

definition length_mismatch :: error where
  "length_mismatch = ValueError ''Bitstrings must have the same length.''"

definition hamming_distance :: "string \<Rightarrow> string \<Rightarrow> error + int" where
  "hamming_distance a b =
     (if length a \<noteq> length b then Inl length_mismatch
      else Inr (int (length (filter (\<lambda>(ch1, ch2). ch1 \<noteq> ch2) (zip a b)))))"

text \<open>
  One of the two loops of \<^verbatim>\<open>_decode_logical_bit\<close> over a codeword table; the loops
  differ only in the label they store. The state is \<open>(best_dist, best_logical)\<close>.
\<close>

fun scan_codewords :: "int \<Rightarrow> string \<Rightarrow> string list \<Rightarrow> int \<times> int \<Rightarrow> error + int \<times> int" where
  "scan_codewords label data_bits [] best = Inr best"
| "scan_codewords label data_bits (cw # cws) (best_dist, best_logical) =
     (case hamming_distance data_bits cw of
        Inl e \<Rightarrow> Inl e
      | Inr d \<Rightarrow>
          scan_codewords label data_bits cws
            (if d < best_dist then (d, label) else (best_dist, best_logical)))"

definition too_short :: "string \<Rightarrow> error" where
  "too_short bitstring =
     ValueError (''Expected at least 7 bits in measurement bitstring, got ''
                 @ [CHR 0x27] @ bitstring @ [CHR 0x27] @ ''.'')"

definition decode_logical_bit :: "string \<Rightarrow> error + int" where
  "decode_logical_bit bitstring =
     (let bits_str = rev bitstring in
      if length bits_str < SteaneCode7_n_physical then Inl (too_short bitstring)
      else
        let data_bits = take SteaneCode7_n_physical bits_str;
            best_logical = 0;
            best_dist = int SteaneCode7_n_physical + 1
        in case scan_codewords 0 data_bits EVEN_CODEWORDS (best_dist, best_logical) of
             Inl e \<Rightarrow> Inl e
           | Inr best \<Rightarrow>
               (case scan_codewords 1 data_bits ODD_CODEWORDS best of
                  Inl e \<Rightarrow> Inl e
                | Inr (best_dist', best_logical') \<Rightarrow> Inr best_logical'))"

definition SteaneCode7_logical_error_rate_from_counts ::
  "counts \<Rightarrow> string \<Rightarrow> error + rat" where
  "SteaneCode7_logical_error_rate_from_counts = error_rate decode_logical_bit"

section \<open>Circuits and the code contract\<close>

text \<open>
  \<^verbatim>\<open>build_circuit\<close> hands a Qiskit \<^verbatim>\<open>QuantumCircuit\<close> to the simulator. The
  circuit is the number of qubits and of classical bits it was created with and the
  instructions appended to it, in order.
\<close>

datatype instruction = X nat | H nat | CX nat nat | Measure nat nat

record QuantumCircuit =
  num_qubits :: nat
  num_clbits :: nat
  instructions :: "instruction list"

definition RepetitionCode3_build_circuit :: "string \<Rightarrow> error + QuantumCircuit" where
  "RepetitionCode3_build_circuit logical_state =
     (let tail = [CX 0 1, CX 0 2, Measure 0 0, Measure 1 1, Measure 2 2] in
      if logical_state = ''1'' then
        Inr \<lparr>num_qubits = 3, num_clbits = 3, instructions = X 0 # tail\<rparr>
      else if logical_state \<noteq> ''0'' then Inl unsupported_state
      else Inr \<lparr>num_qubits = 3, num_clbits = 3, instructions = tail\<rparr>)"

definition ShorCode9_build_circuit :: "string \<Rightarrow> error + QuantumCircuit" where
  "ShorCode9_build_circuit logical_state =
     (let tail =
            [CX 0 3, CX 0 6]
            @ map H [0, 3, 6]
            @ concat (map (\<lambda>start. [CX start (start + 1), CX start (start + 2)]) [0, 3, 6])
            @ map H [0, 3, 6]
            @ map (\<lambda>qubit. Measure qubit qubit) [0..<9] in
      if logical_state = ''1'' then
        Inr \<lparr>num_qubits = 9, num_clbits = 9, instructions = X 0 # tail\<rparr>
      else if logical_state \<noteq> ''0'' then Inl unsupported_state
      else Inr \<lparr>num_qubits = 9, num_clbits = 9, instructions = tail\<rparr>)"

definition RotatedSurfaceCodeD3_build_circuit :: "string \<Rightarrow> error + QuantumCircuit" where
  "RotatedSurfaceCodeD3_build_circuit logical_state =
     (if logical_state \<notin> {''0'', ''1''} then Inl unsupported_state
      else
        let data = [0..<9];
            anc_x = [9..<13];
            anc_z = [13..<17];
            x_stabilizers = [[0, 1, 3, 4], [1, 2, 4, 5], [3, 4, 6, 7], [4, 5, 7, 8]];
            z_stabilizers = [[0, 3, 1, 4], [1, 4, 2, 5], [3, 6, 4, 7], [4, 7, 5, 8]]
        in Inr \<lparr>num_qubits = 17, num_clbits = 17, instructions =
             (if logical_state = ''1'' then [X (hd data)] else [])
             @ map (\<lambda>target. CX (hd data) target) (tl data)
             @ concat (map (\<lambda>(anc, qubits). [H anc] @ map (\<lambda>q. CX q anc) qubits @ [H anc])
                         (zip anc_x x_stabilizers))
             @ concat (map (\<lambda>(anc, qubits). map (\<lambda>q. CX q anc) qubits)
                         (zip anc_z z_stabilizers))
             @ map (\<lambda>qubit. Measure qubit qubit) [0..<17]\<rparr>)"

definition SteaneCode7_build_circuit :: "string \<Rightarrow> error + QuantumCircuit" where
  "SteaneCode7_build_circuit logical_state =
     (if logical_state \<notin> {''0'', ''1''} then Inl unsupported_state
      else Inr \<lparr>num_qubits = 7, num_clbits = 7, instructions =
             [H 0, H 1, H 3,
              CX 0 2, CX 3 5, CX 1 6,
              CX 0 4, CX 3 6, CX 1 5,
              CX 0 6, CX 1 2, CX 3 4]
             @ (if logical_state = ''1'' then map X [0..<SteaneCode7_n_physical] else [])
             @ map (\<lambda>q. Measure q q) [0..<SteaneCode7_n_physical]\<rparr>)"

text \<open>
  The subclasses of \<^verbatim>\<open>BaseCode\<close>; a call \<^verbatim>\<open>code.method(...)\<close> dispatches on
  the class of \<^verbatim>\<open>code\<close>.
\<close>

datatype code = RepetitionCode3 | ShorCode9 | RotatedSurfaceCodeD3 | SteaneCode7

fun code_name :: "code \<Rightarrow> string" where
  "code_name RepetitionCode3 = ''3-qubit repetition code''"
| "code_name ShorCode9 = ''9-qubit Shor code''"
| "code_name RotatedSurfaceCodeD3 = ''d=3 rotated surface code''"
| "code_name SteaneCode7 = ''7-qubit Steane code''"

fun n_physical :: "code \<Rightarrow> nat" where
  "n_physical RepetitionCode3 = 3"
| "n_physical ShorCode9 = 9"
| "n_physical RotatedSurfaceCodeD3 = 17"
| "n_physical SteaneCode7 = SteaneCode7_n_physical"

fun build_circuit :: "code \<Rightarrow> string \<Rightarrow> error + QuantumCircuit" where
  "build_circuit RepetitionCode3 = RepetitionCode3_build_circuit"
| "build_circuit ShorCode9 = ShorCode9_build_circuit"
| "build_circuit RotatedSurfaceCodeD3 = RotatedSurfaceCodeD3_build_circuit"
| "build_circuit SteaneCode7 = SteaneCode7_build_circuit"

fun logical_error_rate_from_counts :: "code \<Rightarrow> counts \<Rightarrow> string \<Rightarrow> error + rat" where
  "logical_error_rate_from_counts RepetitionCode3 =
     RepetitionCode3_logical_error_rate_from_counts"
| "logical_error_rate_from_counts ShorCode9 = ShorCode9_logical_error_rate_from_counts"
| "logical_error_rate_from_counts RotatedSurfaceCodeD3 =
     RotatedSurfaceCodeD3_logical_error_rate_from_counts"
| "logical_error_rate_from_counts SteaneCode7 = SteaneCode7_logical_error_rate_from_counts"

section \<open>Noise models\<close>

text \<open>
  A \<^verbatim>\<open>NoiseModel\<close> of \<^verbatim>\<open>qec_lab.noise.models\<close> is the list of its
  \<^verbatim>\<open>add_all_qubit_quantum_error(error, gate)\<close> calls. The channels are values of
  Qiskit Aer; they are kept as terms. A strength is a Python float; the builders accept
  it only between 0 and 1 (a NaN or an infinity fails that test), so an accepted
  strength is a rational number.
\<close>

datatype QuantumError =
    pauli_error "(string \<times> rat) list"
  | depolarizing_error rat nat
  | amplitude_damping_error rat
  | tensor QuantumError QuantumError

type_synonym NoiseModel = "(QuantumError \<times> string) list"

definition SINGLE_QUBIT_GATES :: "string list" where
  "SINGLE_QUBIT_GATES = [''id'', ''x'', ''y'', ''z'', ''h'', ''sx'']"

definition TWO_QUBIT_GATES :: "string list" where
  "TWO_QUBIT_GATES = [''cx'']"

definition add_errors :: "QuantumError \<Rightarrow> QuantumError \<Rightarrow> NoiseModel" where
  "add_errors single_qubit_error two_qubit_error =
     map (\<lambda>gate. (single_qubit_error, gate)) SINGLE_QUBIT_GATES
     @ map (\<lambda>gate. (two_qubit_error, gate)) TWO_QUBIT_GATES"

definition bad_probability :: error where
  "bad_probability = ValueError ''Probability p must be between 0 and 1.''"

definition bad_gamma :: error where
  "bad_gamma = ValueError ''Damping parameter gamma must be between 0 and 1.''"

definition bit_flip_noise_model :: "rat \<Rightarrow> error + NoiseModel" where
  "bit_flip_noise_model p =
     (if \<not> (0 \<le> p \<and> p \<le> 1) then Inl bad_probability
      else
        let single_qubit_error = pauli_error [(''X'', p), (''I'', 1 - p)];
            two_qubit_error = tensor single_qubit_error single_qubit_error
        in Inr (add_errors single_qubit_error two_qubit_error))"

definition phase_flip_noise_model :: "rat \<Rightarrow> error + NoiseModel" where
  "phase_flip_noise_model p =
     (if \<not> (0 \<le> p \<and> p \<le> 1) then Inl bad_probability
      else
        let single_qubit_error = pauli_error [(''Z'', p), (''I'', 1 - p)];
            two_qubit_error = tensor single_qubit_error single_qubit_error
        in Inr (add_errors single_qubit_error two_qubit_error))"

definition depolarizing_noise_model :: "rat \<Rightarrow> error + NoiseModel" where
  "depolarizing_noise_model p =
     (if \<not> (0 \<le> p \<and> p \<le> 1) then Inl bad_probability
      else
        let single_qubit_error = depolarizing_error p 1;
            two_qubit_error = depolarizing_error p 2
        in Inr (add_errors single_qubit_error two_qubit_error))"

definition amplitude_damping_noise_model :: "rat \<Rightarrow> error + NoiseModel" where
  "amplitude_damping_noise_model gamma =
     (if \<not> (0 \<le> gamma \<and> gamma \<le> 1) then Inl bad_gamma
      else
        let single_qubit_error = amplitude_damping_error gamma;
            two_qubit_error = tensor single_qubit_error single_qubit_error
        in Inr (add_errors single_qubit_error two_qubit_error))"

section \<open>The noise sweep\<close>

text \<open>The table \<^verbatim>\<open>_NOISE_BUILDERS\<close> of \<^verbatim>\<open>experiments/sweep.py\<close>, entry for entry.\<close>

definition NOISE_BUILDERS :: "(string \<times> (rat \<Rightarrow> error + NoiseModel)) list" where
  "NOISE_BUILDERS =
     [(''bit_flip'', bit_flip_noise_model),
      (''depolarizing'', depolarizing_noise_model),
      (''amplitude_damping'', amplitude_damping_noise_model)]"

definition unknown_noise_type :: "string \<Rightarrow> error" where
  "unknown_noise_type noise_type =
     ValueError (''Unknown noise_type '' @ [CHR 0x27] @ noise_type @ [CHR 0x27] @ ''.'')"

text \<open>
  The simulator is outside the repository. One run,
  \<^verbatim>\<open>AerSimulator(noise_model=...).run(transpile(circuit, simulator), shots=shots).result().get_counts()\<close>,
  is a parameter of the sweep: a function from the noise model, the circuit and the
  number of shots to a counts dictionary. The sweep logs every run it delegates, with the
  arguments of the run, so that the order of validation and delegation can be stated.
\<close>

type_synonym simulator = "NoiseModel \<Rightarrow> QuantumCircuit \<Rightarrow> int \<Rightarrow> counts"

type_synonym run = "NoiseModel \<times> QuantumCircuit \<times> int"

text \<open>
  \<^verbatim>\<open>results[p] = logical_error\<close> on a Python dictionary: a key already present keeps
  its place (and the key object stored first) and gets the new value; a new key is
  appended.
\<close>

fun dict_set :: "('k \<times> 'v) list \<Rightarrow> 'k \<Rightarrow> 'v \<Rightarrow> ('k \<times> 'v) list" where
  "dict_set [] k v = [(k, v)]"
| "dict_set ((k', v') # kvs) k v =
     (if k' = k then (k', v) # kvs else (k', v') # dict_set kvs k v)"

text \<open>
  The loop \<^verbatim>\<open>for p in ps\<close> of \<^verbatim>\<open>run_code_on_noise_grid\<close>. The state is the
  dictionary \<^verbatim>\<open>results\<close> and the log of simulator runs. The \<^verbatim>\<open>print\<close> at the end
  of the body has no effect on either and is left out.
\<close>

fun sweep_loop ::
  "simulator \<Rightarrow> code \<Rightarrow> (rat \<Rightarrow> error + NoiseModel) \<Rightarrow> string \<Rightarrow> int \<Rightarrow> rat list \<Rightarrow>
     (rat \<times> rat) list \<times> run list \<Rightarrow> (error + (rat \<times> rat) list) \<times> run list" where
  "sweep_loop sim code noise_builder logical_state shots [] (results, runs) =
     (Inr results, runs)"
| "sweep_loop sim code noise_builder logical_state shots (p # ps) (results, runs) =
     (case noise_builder p of
        Inl e \<Rightarrow> (Inl e, runs)
      | Inr noise_model \<Rightarrow>
          (case build_circuit code logical_state of
             Inl e \<Rightarrow> (Inl e, runs)
           | Inr circuit \<Rightarrow>
               let cnts = sim noise_model circuit shots;
                   runs' = runs @ [(noise_model, circuit, shots)]
               in (case logical_error_rate_from_counts code cnts logical_state of
                     Inl e \<Rightarrow> (Inl e, runs')
                   | Inr logical_error \<Rightarrow>
                       sweep_loop sim code noise_builder logical_state shots ps
                         (dict_set results p logical_error, runs'))))"

definition run_code_on_noise_grid ::
  "simulator \<Rightarrow> code \<Rightarrow> rat list \<Rightarrow> string \<Rightarrow> string \<Rightarrow> int \<Rightarrow>
     (error + (rat \<times> rat) list) \<times> run list" where
  "run_code_on_noise_grid sim code ps noise_type logical_state shots =
     (case map_of NOISE_BUILDERS noise_type of
        None \<Rightarrow> (Inl (unknown_noise_type noise_type), [])
      | Some noise_builder \<Rightarrow>
          sweep_loop sim code noise_builder logical_state shots ps ([], []))"

text \<open>
  A simulator to run the sweep on: it reports every shot as the all-zero outcome, one
  character per classical bit of the circuit.
\<close>

definition all_zero_simulator :: simulator where
  "all_zero_simulator noise_model circuit shots =
     [(replicate (num_clbits circuit) CHR ''0'', shots)]"

section \<open>Notions of the specification\<close>

text \<open>The 2-of-3 majority of three votes, and the test that a character is the bit 1.\<close>

definition majority3 :: "bool \<Rightarrow> bool \<Rightarrow> bool \<Rightarrow> bool" where
  "majority3 a b c = ((a \<and> b) \<or> (a \<and> c) \<or> (b \<and> c))"

definition is_one :: "char \<Rightarrow> bool" where
  "is_one ch = (ch = CHR ''1'')"

text \<open>
  The six votes of the row/column decoder on a 3 by 3 grid \<open>g\<close> (the reversed key): the
  rows over positions (0,1,2), (3,4,5), (6,7,8), then the columns over (k, k+3, k+6).
\<close>

definition grid_votes :: "string \<Rightarrow> bool list" where
  "grid_votes g =
     [majority3 (is_one (g ! 0)) (is_one (g ! 1)) (is_one (g ! 2)),
      majority3 (is_one (g ! 3)) (is_one (g ! 4)) (is_one (g ! 5)),
      majority3 (is_one (g ! 6)) (is_one (g ! 7)) (is_one (g ! 8)),
      majority3 (is_one (g ! 0)) (is_one (g ! 3)) (is_one (g ! 6)),
      majority3 (is_one (g ! 1)) (is_one (g ! 4)) (is_one (g ! 7)),
      majority3 (is_one (g ! 2)) (is_one (g ! 5)) (is_one (g ! 8))]"

text \<open>
  The Hamming distance of the specification, the count of differing positions, and the
  minimum distance of a word to a table of codewords.
\<close>

definition differing_positions :: "string \<Rightarrow> string \<Rightarrow> nat" where
  "differing_positions a b = length (filter (\<lambda>i. a ! i \<noteq> b ! i) [0..<length a])"

definition min_distance :: "string \<Rightarrow> string list \<Rightarrow> nat" where
  "min_distance w cws = Min (set (map (differing_positions w) cws))"

text \<open>The received word of the nearest-codeword decoder.\<close>

definition received_word :: "string \<Rightarrow> string" where
  "received_word bitstring = take 7 (rev bitstring)"

text \<open>The keys of a dictionary filled by assigning to the keys \<open>ks\<close> in turn.\<close>

fun first_occurrences :: "'a list \<Rightarrow> 'a list" where
  "first_occurrences [] = []"
| "first_occurrences (x # xs) = x # first_occurrences (removeAll x xs)"

definition valid_strength :: "rat \<Rightarrow> bool" where
  "valid_strength p = (0 \<le> p \<and> p \<le> 1)"

section \<open>Majority votes\<close>

lemma tally_total:
  "tally (\<lambda>b. Inr (f b)) expected cnts acc =
     Inr (acc + sum_list (map snd (filter (\<lambda>(b, s). f b \<noteq> expected) cnts)))"
  by (induction cnts arbitrary: acc) auto

lemma count_ones_three:
  "(count_ones [a, b, c] \<ge> 2) = majority3 (is_one a) (is_one b) (is_one c)"
  by (simp add: count_ones_def majority3_def is_one_def)

lemma count_votes:
  "count_list (map (\<lambda>v. if v then (1::int) else 0) vs) 1 = length (filter id vs)"
  by (induction vs) simp_all

lemma count_three_votes:
  "(count_list [if p then (1::int) else 0, if q then 1 else 0, if r then 1 else 0] 1 \<ge> 2)
     = majority3 p q r"
  by (simp add: majority3_def)

lemma count_six_votes:
  "count_list [if a then (1::int) else 0, if b then 1 else 0, if c then 1 else 0,
               if d then 1 else 0, if e then 1 else 0, if f then 1 else 0] 1
     = length (filter id [a, b, c, d, e, f])"
  using count_votes [of "[a, b, c, d, e, f]"] by (simp only: list.map)

subsection \<open>The repetition code\<close>

lemma RepetitionCode3_three:
  "RepetitionCode3_logical_out [a, b, c] =
     (if majority3 (is_one a) (is_one b) (is_one c) then 1 else 0)"
  unfolding RepetitionCode3_logical_out_def Let_def count_ones_three ..

lemma RepetitionCode3_example_rate:
  "RepetitionCode3_logical_error_rate_from_counts [(''000'', 900), (''111'', 100)] ''0''
     = Inr (1 / 10)"
  "RepetitionCode3_logical_error_rate_from_counts [(''000'', 900), (''111'', 100)] ''1''
     = Inr (9 / 10)"
  by (simp_all add: RepetitionCode3_logical_error_rate_from_counts_def error_rate_def
      int_of_state_def RepetitionCode3_logical_out_def count_ones_def)

text \<open>
  C4. On a key of three characters \<open>[a, b, c]\<close> the decoder of RepetitionCode3 outputs 1
  exactly when at least two of the three characters are the bit 1, and 0 otherwise. On
  the counts \<open>{"000": 900, "111": 100}\<close> the rate is 100 / 1000 = 1/10 for the expected
  state "0" and 900 / 1000 = 9/10 for the expected state "1".
\<close>

theorem RepetitionCode3_majority_vote:
  "(RepetitionCode3_logical_out [a, b, c] = 1
      \<longleftrightarrow> majority3 (is_one a) (is_one b) (is_one c))
   \<and> (RepetitionCode3_logical_out [a, b, c] = 0
      \<longleftrightarrow> \<not> majority3 (is_one a) (is_one b) (is_one c))
   \<and> RepetitionCode3_logical_error_rate_from_counts [(''000'', 900), (''111'', 100)] ''0''
       = Inr (1 / 10)
   \<and> RepetitionCode3_logical_error_rate_from_counts [(''000'', 900), (''111'', 100)] ''1''
       = Inr (9 / 10)"
proof -
  have "RepetitionCode3_logical_out [a, b, c] = 1
          \<longleftrightarrow> majority3 (is_one a) (is_one b) (is_one c)"
    by (simp add: RepetitionCode3_three)
  moreover have "RepetitionCode3_logical_out [a, b, c] = 0
          \<longleftrightarrow> \<not> majority3 (is_one a) (is_one b) (is_one c)"
    by (simp add: RepetitionCode3_three)
  ultimately show ?thesis
    using RepetitionCode3_example_rate by blast
qed

subsection \<open>The Shor code\<close>

lemma ShorCode9_nine:
  "ShorCode9_logical_out [k8, k7, k6, k5, k4, k3, k2, k1, k0] =
     (if majority3 (majority3 (is_one k0) (is_one k1) (is_one k2))
                   (majority3 (is_one k3) (is_one k4) (is_one k5))
                   (majority3 (is_one k6) (is_one k7) (is_one k8)) then 1 else 0)"
  by (simp add: ShorCode9_logical_out_def count_ones_three count_three_votes
      del: count_list.simps)

lemma ShorCode9_all_zero: "ShorCode9_logical_out (replicate 9 CHR ''0'') = 0"
  by (simp add: numeral_eq_Suc ShorCode9_nine [unfolded numeral_eq_Suc] is_one_def majority3_def)

text \<open>
  C3. Flipping one bit of the all-zero key of nine bits, at any position \<open>i < 9\<close>, does
  not change what ShorCode9 decodes: it is logical 0, as for the all-zero key. On any
  key of nine characters the decoder is the 2-of-3 majority of the three 2-of-3
  majorities over the blocks of three of the reversed key.
\<close>

theorem ShorCode9_single_flip:
  assumes "i < 9"
  shows "ShorCode9_logical_out ((replicate 9 CHR ''0'')[i := CHR ''1''])
           = ShorCode9_logical_out (replicate 9 CHR ''0'')
         \<and> ShorCode9_logical_out (replicate 9 CHR ''0'') = 0
         \<and> ShorCode9_logical_out [k8, k7, k6, k5, k4, k3, k2, k1, k0] =
             (if majority3 (majority3 (is_one k0) (is_one k1) (is_one k2))
                           (majority3 (is_one k3) (is_one k4) (is_one k5))
                           (majority3 (is_one k6) (is_one k7) (is_one k8)) then 1 else 0)"
proof -
  from assms have "i \<in> {0, 1, 2, 3, 4, 5, 6, 7, 8}"
    by auto
  then have "ShorCode9_logical_out ((replicate 9 CHR ''0'')[i := CHR ''1'']) = 0"
    by (auto simp add: numeral_eq_Suc ShorCode9_nine [unfolded numeral_eq_Suc]
        is_one_def majority3_def)
  then show ?thesis
    using ShorCode9_all_zero ShorCode9_nine by simp
qed

theorem ShorCode9_single_flip_witness:
  "(4::nat) < 9 \<and> ShorCode9_logical_out ''000010000'' = 0"
proof -
  have four: "(4::nat) < 9"
    by simp
  from ShorCode9_single_flip [OF four, THEN conjunct1]
    ShorCode9_single_flip [OF four, THEN conjunct2, THEN conjunct1]
  have "ShorCode9_logical_out ((replicate 9 CHR ''0'')[4 := CHR ''1'']) = 0"
    by (simp only:)
  then show ?thesis
    by (simp add: numeral_eq_Suc)
qed

subsection \<open>The rotated surface code\<close>

lemma take9_rev:
  assumes "9 \<le> length key"
  shows "take 9 (rev key) = map (\<lambda>i. rev key ! i) [0, 1, 2, 3, 4, 5, 6, 7, 8]"
proof -
  have "take 9 (rev key) = map (\<lambda>i. rev key ! i) [0..<9]"
    using assms by (intro nth_equalityI) simp_all
  also have "[0..<9] = [0, 1, 2, 3, 4, 5, 6, 7, 8::nat]"
    by (simp add: upt_rec)
  finally show ?thesis .
qed

lemma surface_grid:
  assumes "take 9 (rev key) = [g0, g1, g2, g3, g4, g5, g6, g7, g8]"
  shows "RotatedSurfaceCodeD3_logical_out key =
           (if 3 \<le> length (filter id
                 [majority3 (is_one g0) (is_one g1) (is_one g2),
                  majority3 (is_one g3) (is_one g4) (is_one g5),
                  majority3 (is_one g6) (is_one g7) (is_one g8),
                  majority3 (is_one g0) (is_one g3) (is_one g6),
                  majority3 (is_one g1) (is_one g4) (is_one g7),
                  majority3 (is_one g2) (is_one g5) (is_one g8)]) then 1 else 0)"
proof -
  have rows:
    "map (\<lambda>start. if count_ones (take 3 (drop start [g0, g1, g2, g3, g4, g5, g6, g7, g8])) \<ge> 2
                   then (1::int) else 0) [0, 3, 6]
      = [if majority3 (is_one g0) (is_one g1) (is_one g2) then 1 else 0,
         if majority3 (is_one g3) (is_one g4) (is_one g5) then 1 else 0,
         if majority3 (is_one g6) (is_one g7) (is_one g8) then 1 else 0]"
    by (simp add: count_ones_three)
  have cols:
    "map (\<lambda>start. if count_ones (take 3 (every_kth 3
                        (drop start [g0, g1, g2, g3, g4, g5, g6, g7, g8]))) \<ge> 2
                   then (1::int) else 0) [0, 1, 2]
      = [if majority3 (is_one g0) (is_one g3) (is_one g6) then 1 else 0,
         if majority3 (is_one g1) (is_one g4) (is_one g7) then 1 else 0,
         if majority3 (is_one g2) (is_one g5) (is_one g8) then 1 else 0]"
    by (simp add: count_ones_three)
  show ?thesis
    unfolding RotatedSurfaceCodeD3_logical_out_def Let_def assms rows cols append.simps
      count_six_votes ..
qed

lemma surface_votes:
  assumes "9 \<le> length key"
  shows "RotatedSurfaceCodeD3_logical_out key =
           (if 3 \<le> length (filter id (grid_votes (rev key))) then 1 else 0)"
  unfolding grid_votes_def
  by (rule surface_grid) (simp only: take9_rev [OF assms] list.map)

lemma surface_prefix:
  "take 9 (rev key) = take 9 (rev key') \<Longrightarrow>
     RotatedSurfaceCodeD3_logical_out key = RotatedSurfaceCodeD3_logical_out key'"
  unfolding RotatedSurfaceCodeD3_logical_out_def Let_def by (simp only:)

lemma surface_zero:
  "RotatedSurfaceCodeD3_logical_out (ancilla @ replicate 9 CHR ''0'') = 0"
proof -
  have "take 9 (rev (ancilla @ replicate 9 CHR ''0'')) = replicate 9 CHR ''0''"
    by simp
  then have "RotatedSurfaceCodeD3_logical_out (ancilla @ replicate 9 CHR ''0'')
      = RotatedSurfaceCodeD3_logical_out (replicate 9 CHR ''0'')"
    by (intro surface_prefix) simp
  also have "\<dots> = 0"
    by (simp add: RotatedSurfaceCodeD3_logical_out_def count_ones_def numeral_eq_Suc)
  finally show ?thesis .
qed

text \<open>
  C5. On a key of at least nine characters the decoder of RotatedSurfaceCodeD3 outputs 1
  exactly when at least three of the six votes are 1 (the three row majorities and the
  three column majorities over the first nine characters of the reversed key), and 0
  otherwise. Two keys whose reversals agree on their first nine characters decode alike,
  and nine zero data bits decode to 0 whatever ancilla bits precede them in the key.
\<close>

theorem RotatedSurfaceCodeD3_pooled_votes:
  assumes "9 \<le> length key"
  shows "(RotatedSurfaceCodeD3_logical_out key = 1
            \<longleftrightarrow> 3 \<le> length (filter id (grid_votes (rev key))))
         \<and> (RotatedSurfaceCodeD3_logical_out key = 0
            \<longleftrightarrow> length (filter id (grid_votes (rev key))) < 3)
         \<and> (\<forall>key'. take 9 (rev key') = take 9 (rev key) \<longrightarrow>
               RotatedSurfaceCodeD3_logical_out key' = RotatedSurfaceCodeD3_logical_out key)
         \<and> RotatedSurfaceCodeD3_logical_out (ancilla @ replicate 9 CHR ''0'') = 0"
proof (intro conjI allI impI)
  show "RotatedSurfaceCodeD3_logical_out key = 1
          \<longleftrightarrow> 3 \<le> length (filter id (grid_votes (rev key)))"
    by (simp add: surface_votes [OF assms])
  show "RotatedSurfaceCodeD3_logical_out key = 0
          \<longleftrightarrow> length (filter id (grid_votes (rev key))) < 3"
    by (simp add: surface_votes [OF assms] not_le)
  show "RotatedSurfaceCodeD3_logical_out key' = RotatedSurfaceCodeD3_logical_out key"
    if "take 9 (rev key') = take 9 (rev key)" for key'
    using that by (rule surface_prefix)
  show "RotatedSurfaceCodeD3_logical_out (ancilla @ replicate 9 CHR ''0'') = 0"
    by (rule surface_zero)
qed

theorem RotatedSurfaceCodeD3_pooled_votes_witness:
  "(9::nat) \<le> length ''00000000000011011''
   \<and> RotatedSurfaceCodeD3_logical_out ''00000000000011011'' = 1
   \<and> length (filter id (grid_votes (rev ''00000000000011011''))) = 4
   \<and> RotatedSurfaceCodeD3_logical_out ''10101010000011011'' = 1"
proof -
  have len: "(9::nat) \<le> length ''00000000000011011''"
    by simp
  have votes: "length (filter id (grid_votes (rev ''00000000000011011''))) = 4"
    by (simp add: grid_votes_def majority3_def is_one_def)
  have same: "take 9 (rev ''10101010000011011'') = take 9 (rev ''00000000000011011'')"
    by simp
  from RotatedSurfaceCodeD3_pooled_votes [OF len] votes same show ?thesis
    by simp
qed

section \<open>The nearest-codeword decoder\<close>

lemma zip_differing:
  assumes "length a = length b"
  shows "length (filter (\<lambda>(ch1, ch2). ch1 \<noteq> ch2) (zip a b)) = differing_positions a b"
proof -
  have "length (filter (\<lambda>(ch1, ch2). ch1 \<noteq> ch2) (zip a b))
          = card {i. i < length a \<and> a ! i \<noteq> b ! i}"
    using assms by (auto simp add: length_filter_conv_card intro!: arg_cong [where f = card])
  also have "\<dots> = differing_positions a b"
    by (auto simp add: differing_positions_def length_filter_conv_card
        intro!: arg_cong [where f = card])
  finally show ?thesis .
qed

lemma hamming_distance_equal_length:
  "length a = length b \<Longrightarrow> hamming_distance a b = Inr (int (differing_positions a b))"
  by (simp add: hamming_distance_def zip_differing)

lemma differing_positions_le: "differing_positions a b \<le> length a"
  using length_filter_le [of "\<lambda>i. a ! i \<noteq> b ! i" "[0..<length a]"]
  by (simp add: differing_positions_def)

lemma scan_codewords_result:
  assumes "\<forall>cw \<in> set cws. length cw = length w"
  shows "\<exists>m. scan_codewords label w cws (best_dist, best_logical)
                = Inr (m, if m < best_dist then label else best_logical)
             \<and> m \<le> best_dist
             \<and> (\<forall>cw \<in> set cws. m \<le> int (differing_positions w cw))
             \<and> (m = best_dist \<or> (\<exists>cw \<in> set cws. m = int (differing_positions w cw)))"
  using assms
proof (induction cws arbitrary: best_dist best_logical)
  case Nil
  then show ?case by simp
next
  case (Cons cw cws)
  let ?d = "int (differing_positions w cw)"
  have dist: "hamming_distance w cw = Inr ?d"
    using Cons.prems by (simp add: hamming_distance_equal_length)
  have rest: "\<forall>cw \<in> set cws. length cw = length w"
    using Cons.prems by simp
  show ?case
  proof (cases "?d < best_dist")
    case True
    from Cons.IH [OF rest, of ?d label] obtain m where
      m: "scan_codewords label w cws (?d, label) = Inr (m, if m < ?d then label else label)"
        "m \<le> ?d" "\<forall>cw \<in> set cws. m \<le> int (differing_positions w cw)"
        "m = ?d \<or> (\<exists>cw \<in> set cws. m = int (differing_positions w cw))"
      by blast
    have "scan_codewords label w (cw # cws) (best_dist, best_logical) = Inr (m, label)"
      using dist True m(1) by simp
    moreover have "m < best_dist"
      using m(2) True by simp
    ultimately show ?thesis
      using m(2-4) by auto
  next
    case False
    from Cons.IH [OF rest, of best_dist best_logical] obtain m where
      m: "scan_codewords label w cws (best_dist, best_logical)
            = Inr (m, if m < best_dist then label else best_logical)"
        "m \<le> best_dist" "\<forall>cw \<in> set cws. m \<le> int (differing_positions w cw)"
        "m = best_dist \<or> (\<exists>cw \<in> set cws. m = int (differing_positions w cw))"
      by blast
    have "scan_codewords label w (cw # cws) (best_dist, best_logical)
            = Inr (m, if m < best_dist then label else best_logical)"
      using dist False m(1) by simp
    then show ?thesis
      using m(2-4) False by auto
  qed
qed

lemma codeword_lengths:
  "\<forall>cw \<in> set EVEN_CODEWORDS. length cw = 7" "\<forall>cw \<in> set ODD_CODEWORDS. length cw = 7"
  by (simp_all add: EVEN_CODEWORDS_def ODD_CODEWORDS_def)

lemma codewords_nonempty: "EVEN_CODEWORDS \<noteq> []" "ODD_CODEWORDS \<noteq> []"
  by (simp_all add: EVEN_CODEWORDS_def ODD_CODEWORDS_def)

lemma min_distance_props:
  assumes "cws \<noteq> []"
  shows "\<forall>cw \<in> set cws. min_distance w cws \<le> differing_positions w cw"
    and "\<exists>cw \<in> set cws. min_distance w cws = differing_positions w cw"
proof -
  let ?D = "set (map (differing_positions w) cws)"
  have fin: "finite ?D" and ne: "?D \<noteq> {}"
    using assms by simp_all
  show "\<forall>cw \<in> set cws. min_distance w cws \<le> differing_positions w cw"
    unfolding min_distance_def using fin by (auto intro: Min_le)
  from Min_in [OF fin ne] show "\<exists>cw \<in> set cws. min_distance w cws = differing_positions w cw"
    unfolding min_distance_def by auto
qed

lemma decode_logical_bit_nearest:
  assumes "7 \<le> length bitstring"
  shows "decode_logical_bit bitstring =
           Inr (if min_distance (received_word bitstring) ODD_CODEWORDS
                     < min_distance (received_word bitstring) EVEN_CODEWORDS then 1 else 0)"
proof -
  let ?w = "received_word bitstring"
  have len: "length ?w = 7"
    using assms by (simp add: received_word_def)
  have even_len: "\<forall>cw \<in> set EVEN_CODEWORDS. length cw = length ?w"
    and odd_len: "\<forall>cw \<in> set ODD_CODEWORDS. length cw = length ?w"
    using codeword_lengths len by simp_all
  from scan_codewords_result [OF even_len, of 0 8 0] obtain m0 where
    m0: "scan_codewords 0 ?w EVEN_CODEWORDS (8, 0) = Inr (m0, 0)"
      "\<forall>cw \<in> set EVEN_CODEWORDS. m0 \<le> int (differing_positions ?w cw)"
      "m0 = 8 \<or> (\<exists>cw \<in> set EVEN_CODEWORDS. m0 = int (differing_positions ?w cw))"
    by auto
  from min_distance_props [OF codewords_nonempty(1), of ?w] obtain cw0 where
    cw0: "cw0 \<in> set EVEN_CODEWORDS" "min_distance ?w EVEN_CODEWORDS = differing_positions ?w cw0"
      and low0: "\<forall>cw \<in> set EVEN_CODEWORDS. min_distance ?w EVEN_CODEWORDS \<le> differing_positions ?w cw"
    by blast
  have "int (differing_positions ?w cw0) \<le> 7"
    using differing_positions_le [of ?w cw0] len by simp
  with m0(2) cw0(1) have "m0 \<noteq> 8"
    by fastforce
  with m0(3) obtain cw where "cw \<in> set EVEN_CODEWORDS" "m0 = int (differing_positions ?w cw)"
    by blast
  with low0 m0(2) cw0 have m0_eq: "m0 = int (min_distance ?w EVEN_CODEWORDS)"
    by fastforce
  from scan_codewords_result [OF odd_len, of 1 m0 0] obtain m1 where
    m1: "scan_codewords 1 ?w ODD_CODEWORDS (m0, 0) = Inr (m1, if m1 < m0 then 1 else 0)"
      "m1 \<le> m0"
      "\<forall>cw \<in> set ODD_CODEWORDS. m1 \<le> int (differing_positions ?w cw)"
      "m1 = m0 \<or> (\<exists>cw \<in> set ODD_CODEWORDS. m1 = int (differing_positions ?w cw))"
    by blast
  from min_distance_props [OF codewords_nonempty(2), of ?w] obtain cw1 where
    cw1: "cw1 \<in> set ODD_CODEWORDS" "min_distance ?w ODD_CODEWORDS = differing_positions ?w cw1"
      and low1: "\<forall>cw \<in> set ODD_CODEWORDS. min_distance ?w ODD_CODEWORDS \<le> differing_positions ?w cw"
    by blast
  have "m1 < m0 \<longleftrightarrow> min_distance ?w ODD_CODEWORDS < min_distance ?w EVEN_CODEWORDS"
  proof
    assume "m1 < m0"
    with m1(4) obtain cw where "cw \<in> set ODD_CODEWORDS" "m1 = int (differing_positions ?w cw)"
      by auto
    with low1 \<open>m1 < m0\<close> m0_eq show "min_distance ?w ODD_CODEWORDS < min_distance ?w EVEN_CODEWORDS"
      by fastforce
  next
    assume "min_distance ?w ODD_CODEWORDS < min_distance ?w EVEN_CODEWORDS"
    with cw1 m1(3) m0_eq show "m1 < m0"
      by fastforce
  qed
  with m0(1) m1(1) show ?thesis
    using assms
    by (simp add: decode_logical_bit_def SteaneCode7_n_physical_def received_word_def)
qed

subsection \<open>Ties\<close>

lemma differing_parity:
  assumes "length a = length b"
    and "set a \<subseteq> {CHR ''0'', CHR ''1''}" and "set b \<subseteq> {CHR ''0'', CHR ''1''}"
  shows "even (length (filter (\<lambda>(ch1, ch2). ch1 \<noteq> ch2) (zip a b)))
           \<longleftrightarrow> even (count_ones a + count_ones b)"
  using assms
  by (induction a b rule: list_induct2) (auto simp add: count_ones_def)

lemma codeword_bits:
  "\<forall>cw \<in> set EVEN_CODEWORDS. set cw \<subseteq> {CHR ''0'', CHR ''1''} \<and> even (count_ones cw)"
  "\<forall>cw \<in> set ODD_CODEWORDS. set cw \<subseteq> {CHR ''0'', CHR ''1''} \<and> odd (count_ones cw)"
  by (simp_all add: EVEN_CODEWORDS_def ODD_CODEWORDS_def count_ones_def)

lemma no_tie_on_bits:
  assumes "length w = 7" and "set w \<subseteq> {CHR ''0'', CHR ''1''}"
  shows "min_distance w ODD_CODEWORDS \<noteq> min_distance w EVEN_CODEWORDS"
proof -
  from min_distance_props(2) [OF codewords_nonempty(1), of w] obtain cw0 where
    cw0: "cw0 \<in> set EVEN_CODEWORDS" "min_distance w EVEN_CODEWORDS = differing_positions w cw0"
    by blast
  from min_distance_props(2) [OF codewords_nonempty(2), of w] obtain cw1 where
    cw1: "cw1 \<in> set ODD_CODEWORDS" "min_distance w ODD_CODEWORDS = differing_positions w cw1"
    by blast
  have len0: "length w = length cw0" and len1: "length w = length cw1"
    using cw0(1) cw1(1) codeword_lengths assms(1) by simp_all
  have "even (differing_positions w cw0) \<longleftrightarrow> even (count_ones w)"
    using differing_parity [OF len0 assms(2)] codeword_bits(1) cw0(1)
    by (simp add: zip_differing [OF len0])
  moreover have "even (differing_positions w cw1) \<longleftrightarrow> odd (count_ones w)"
    using differing_parity [OF len1 assms(2)] codeword_bits(2) cw1(1)
    by (simp add: zip_differing [OF len1])
  ultimately show ?thesis
    using cw0(2) cw1(2) by auto
qed

text \<open>
  C2. When the received word (the first seven characters of the reversed key) is as far
  from the nearest codeword of the ONE table as from the nearest codeword of the ZERO
  table, SteaneCode7 decodes logical 0. More generally the decoder answers 1 only when
  the ONE table is strictly nearer (\<open>decode_logical_bit_nearest\<close>). The theorem holds
  for keys of any characters. On words of the bits 0 and 1 alone no tie arises
  (\<open>no_tie_on_bits\<close>: a distance to a ZERO codeword has the parity of the word's
  weight, a distance to a ONE codeword the other parity), so the witness is a key with
  a register separator, a character that differs from both bits.
\<close>

theorem SteaneCode7_tie_resolves_to_zero:
  assumes "7 \<le> length bitstring"
    and "min_distance (received_word bitstring) ODD_CODEWORDS
           = min_distance (received_word bitstring) EVEN_CODEWORDS"
  shows "decode_logical_bit bitstring = Inr 0"
proof -
  have "\<not> min_distance (received_word bitstring) ODD_CODEWORDS
           < min_distance (received_word bitstring) EVEN_CODEWORDS"
    using assms(2) by simp
  then show ?thesis
    by (simp only: decode_logical_bit_nearest [OF assms(1)] if_False)
qed

lemma tie_example:
  "min_distance (received_word ''00000 1'') ODD_CODEWORDS = 2"
  "min_distance (received_word ''00000 1'') EVEN_CODEWORDS = 2"
  by (simp_all add: min_distance_def received_word_def ODD_CODEWORDS_def EVEN_CODEWORDS_def
      differing_positions_def upt_rec)

theorem SteaneCode7_tie_resolves_to_zero_witness:
  "(7::nat) \<le> length ''00000 1''
   \<and> min_distance (received_word ''00000 1'') ODD_CODEWORDS = 2
   \<and> min_distance (received_word ''00000 1'') EVEN_CODEWORDS = 2
   \<and> decode_logical_bit ''00000 1'' = Inr 0"
proof -
  have len: "(7::nat) \<le> length ''00000 1''"
    by simp
  have tie: "min_distance (received_word ''00000 1'') ODD_CODEWORDS
               = min_distance (received_word ''00000 1'') EVEN_CODEWORDS"
    by (simp only: tie_example)
  from SteaneCode7_tie_resolves_to_zero [OF len tie] len tie_example show ?thesis
    by simp
qed

subsection \<open>Errors\<close>

lemma decode_logical_bit_short:
  "length bitstring < 7 \<Longrightarrow> decode_logical_bit bitstring = Inl (too_short bitstring)"
  by (simp add: decode_logical_bit_def SteaneCode7_n_physical_def)

lemma too_short_neq_length_mismatch: "too_short bitstring \<noteq> length_mismatch"
  by (simp add: too_short_def length_mismatch_def)

lemma unsupported_state_neq_length_mismatch: "unsupported_state \<noteq> length_mismatch"
  by (simp add: unsupported_state_def length_mismatch_def)

lemma decode_logical_bit_cases:
  "(length bitstring < 7 \<and> decode_logical_bit bitstring = Inl (too_short bitstring))
   \<or> (7 \<le> length bitstring \<and> (\<exists>b. decode_logical_bit bitstring = Inr b))"
  using decode_logical_bit_short [of bitstring] decode_logical_bit_nearest [of bitstring]
  by (cases "length bitstring < 7") auto

lemma tally_error:
  "tally decode expected cnts acc = Inl e \<Longrightarrow> \<exists>b \<in> fst ` set cnts. decode b = Inl e"
  by (induction cnts arbitrary: acc) (auto split: sum.splits)


lemma tally_some_failure:
  assumes "(b, s) \<in> set cnts" and "decode b = Inl e"
  shows "\<exists>e'. tally decode expected cnts acc = Inl e'"
  using assms(1)
proof (induction cnts arbitrary: acc)
  case Nil
  then show ?case by simp
next
  case (Cons x cnts)
  obtain b' s' where x: "x = (b', s')"
    by (cases x)
  show ?case
  proof (cases "decode b'")
    case (Inl e')
    with x show ?thesis by simp
  next
    case (Inr v)
    with assms(2) x Cons.prems have "(b, s) \<in> set cnts"
      by auto
    from Cons.IH [OF this] Inr x show ?thesis
      by simp
  qed
qed

lemma error_rate_error:
  "error_rate decode cnts logical_state = Inl e \<Longrightarrow>
     e = unsupported_state \<or> (\<exists>b \<in> fst ` set cnts. decode b = Inl e)"
  by (auto simp add: error_rate_def Let_def split: if_splits sum.splits dest: tally_error)


text \<open>
  C10. The length-mismatch error of \<^verbatim>\<open>_hamming_distance\<close> never comes out of
  \<^verbatim>\<open>_decode_logical_bit\<close> or of \<^verbatim>\<open>logical_error_rate_from_counts\<close>, on any
  input. For a key of at least seven characters the received word has exactly seven
  characters, every codeword of both tables has seven, no distance computation raises,
  and the decoder returns a bit.
\<close>

theorem length_mismatch_unreachable:
  "decode_logical_bit bitstring \<noteq> Inl length_mismatch
   \<and> SteaneCode7_logical_error_rate_from_counts cnts logical_state \<noteq> Inl length_mismatch
   \<and> (7 \<le> length bitstring \<longrightarrow>
        length (take SteaneCode7_n_physical (rev bitstring)) = 7
        \<and> (\<forall>cw \<in> set (EVEN_CODEWORDS @ ODD_CODEWORDS).
              length cw = 7
              \<and> hamming_distance (take SteaneCode7_n_physical (rev bitstring)) cw
                   \<noteq> Inl length_mismatch)
        \<and> (\<exists>b. decode_logical_bit bitstring = Inr b))"
proof (intro conjI impI ballI)
  show decode: "decode_logical_bit key \<noteq> Inl length_mismatch" for key
    using decode_logical_bit_cases [of key] too_short_neq_length_mismatch [of key]
    by auto
  show "SteaneCode7_logical_error_rate_from_counts cnts logical_state \<noteq> Inl length_mismatch"
  proof
    assume "SteaneCode7_logical_error_rate_from_counts cnts logical_state = Inl length_mismatch"
    then have "length_mismatch = unsupported_state
        \<or> (\<exists>b \<in> fst ` set cnts. decode_logical_bit b = Inl length_mismatch)"
      unfolding SteaneCode7_logical_error_rate_from_counts_def by (rule error_rate_error)
    with decode unsupported_state_neq_length_mismatch show False
      by auto
  qed
next
  assume long: "7 \<le> length bitstring"
  then show len: "length (take SteaneCode7_n_physical (rev bitstring)) = 7"
    by (simp add: SteaneCode7_n_physical_def)
  show "\<exists>b. decode_logical_bit bitstring = Inr b"
    using long decode_logical_bit_cases [of bitstring] by auto
  fix cw
  assume "cw \<in> set (EVEN_CODEWORDS @ ODD_CODEWORDS)"
  then show cw: "length cw = 7"
    using codeword_lengths by auto
  with len show "hamming_distance (take SteaneCode7_n_physical (rev bitstring)) cw
      \<noteq> Inl length_mismatch"
    by (simp add: hamming_distance_def)
qed

theorem length_mismatch_unreachable_witness:
  "(7::nat) \<le> length ''1010101''
   \<and> length (take SteaneCode7_n_physical (rev ''1010101'')) = 7
   \<and> (\<exists>b. decode_logical_bit ''1010101'' = Inr b)
   \<and> SteaneCode7_logical_error_rate_from_counts [(''1010101'', 5), (''101'', 3)] ''0''
        \<noteq> Inl length_mismatch"
proof -
  have long: "(7::nat) \<le> length ''1010101''"
    by simp
  from length_mismatch_unreachable [of "''1010101''" "[(''1010101'', 5), (''101'', 3)]" "''0''"]
    long show ?thesis
    by blast
qed

subsection \<open>Keys shorter than the code\<close>

lemma other_codes_never_raise:
  assumes "logical_state \<in> {''0'', ''1''}" and "code \<noteq> SteaneCode7"
  shows "\<exists>rate. logical_error_rate_from_counts code cnts logical_state = Inr rate"
  using assms
  by (cases code)
     (auto simp add: RepetitionCode3_logical_error_rate_from_counts_def
        ShorCode9_logical_error_rate_from_counts_def
        RotatedSurfaceCodeD3_logical_error_rate_from_counts_def
        error_rate_def Let_def tally_total)

lemma SteaneCode7_short_key_raises:
  assumes "logical_state \<in> {''0'', ''1''}" and "(bitstring, shots) \<in> set cnts"
    and "length bitstring < n_physical SteaneCode7"
  shows "\<exists>msg. logical_error_rate_from_counts SteaneCode7 cnts logical_state
                  = Inl (ValueError msg)"
proof -
  from assms(3) have "decode_logical_bit bitstring = Inl (too_short bitstring)"
    by (simp add: decode_logical_bit_short SteaneCode7_n_physical_def)
  from tally_some_failure [where decode = decode_logical_bit, OF assms(2) this] obtain e where
    "tally decode_logical_bit (int_of_state logical_state) cnts 0 = Inl e"
    by blast
  with assms(1) have "logical_error_rate_from_counts SteaneCode7 cnts logical_state = Inl e"
    by (simp add: SteaneCode7_logical_error_rate_from_counts_def error_rate_def)
  then show ?thesis
    by (cases e) simp
qed

text \<open>
  C1. Only SteaneCode7 tests the length of a key (\<open>SteaneCode7_short_key_raises\<close>).
  The other three decoders never raise once the logical state is accepted
  (\<open>other_codes_never_raise\<close>): their slices and counts take a key of any length.
  A key of two characters for RepetitionCode3, of eight for ShorCode9 and of nine for
  RotatedSurfaceCodeD3 (whose \<open>n_physical\<close> is 17) is decoded, here to logical 1, and
  the call returns a rate.
\<close>

theorem short_keys_decoded_without_error:
  "length ''11'' < n_physical RepetitionCode3
   \<and> logical_error_rate_from_counts RepetitionCode3 [(''11'', 1)] ''0'' = Inr 1
   \<and> length ''00011011'' < n_physical ShorCode9
   \<and> logical_error_rate_from_counts ShorCode9 [(''00011011'', 1)] ''0'' = Inr 1
   \<and> length ''000011011'' < n_physical RotatedSurfaceCodeD3
   \<and> logical_error_rate_from_counts RotatedSurfaceCodeD3 [(''000011011'', 1)] ''0'' = Inr 1"
  by (simp add: RepetitionCode3_logical_error_rate_from_counts_def
      ShorCode9_logical_error_rate_from_counts_def
      RotatedSurfaceCodeD3_logical_error_rate_from_counts_def
      error_rate_def int_of_state_def RepetitionCode3_logical_out_def
      ShorCode9_logical_out_def RotatedSurfaceCodeD3_logical_out_def count_ones_def)

subsection \<open>Zero total shots\<close>




section \<open>The noise sweep: validation, delegation and the result\<close>

lemma known_noise_types:
  "map_of NOISE_BUILDERS noise_type =
     (if noise_type = ''bit_flip'' then Some bit_flip_noise_model
      else if noise_type = ''depolarizing'' then Some depolarizing_noise_model
      else if noise_type = ''amplitude_damping'' then Some amplitude_damping_noise_model
      else None)"
  by (simp add: NOISE_BUILDERS_def)

lemma noise_builder_result:
  assumes "map_of NOISE_BUILDERS noise_type = Some noise_builder"
  shows "(valid_strength p \<longrightarrow> (\<exists>noise_model. noise_builder p = Inr noise_model))
         \<and> (\<not> valid_strength p \<longrightarrow> noise_builder p \<in> {Inl bad_probability, Inl bad_gamma})"
  using assms
  by (auto simp add: known_noise_types valid_strength_def bit_flip_noise_model_def
      depolarizing_noise_model_def amplitude_damping_noise_model_def Let_def split: if_splits)

lemma build_circuit_result:
  "(logical_state \<in> {''0'', ''1''} \<longrightarrow> (\<exists>circuit. build_circuit code logical_state = Inr circuit))
   \<and> (logical_state \<notin> {''0'', ''1''} \<longrightarrow> build_circuit code logical_state = Inl unsupported_state)"
  by (cases code)
     (auto simp add: RepetitionCode3_build_circuit_def ShorCode9_build_circuit_def
        RotatedSurfaceCodeD3_build_circuit_def SteaneCode7_build_circuit_def Let_def)

lemma decode_logical_bit_error:
  assumes "decode_logical_bit bitstring = Inl e"
  shows "e = too_short bitstring"
  using decode_logical_bit_cases [of bitstring] assms by auto

lemma rate_error:
  assumes "logical_error_rate_from_counts code cnts logical_state = Inl e"
  shows "e = unsupported_state \<or> (\<exists>bitstring. e = too_short bitstring)"
proof -
  obtain decode where rate: "error_rate decode cnts logical_state = Inl e"
    and decode: "decode = decode_logical_bit \<or> (\<forall>b. \<exists>v. decode b = Inr v)"
    using assms
    by (cases code)
       (auto simp add: RepetitionCode3_logical_error_rate_from_counts_def
          ShorCode9_logical_error_rate_from_counts_def
          RotatedSurfaceCodeD3_logical_error_rate_from_counts_def
          SteaneCode7_logical_error_rate_from_counts_def)
  from error_rate_error [OF rate] show ?thesis
  proof
    assume "\<exists>b \<in> fst ` set cnts. decode b = Inl e"
    then obtain b where b: "decode b = Inl e"
      by blast
    with decode have "decode = decode_logical_bit"
      by (metis sum.distinct(1))
    with b decode_logical_bit_error show ?thesis
      by blast
  qed simp
qed





lemma sweep_loop_error:
  assumes "map_of NOISE_BUILDERS noise_type = Some noise_builder"
    and "fst (sweep_loop sim code noise_builder logical_state shots ps (results, runs)) = Inl e"
  shows "e \<in> {bad_probability, bad_gamma, unsupported_state} \<or> (\<exists>bitstring. e = too_short bitstring)"
  using assms(2)
proof (induction ps arbitrary: results runs)
  case Nil
  then show ?case by simp
next
  case (Cons p ps)
  show ?case
  proof (cases "noise_builder p")
    case (Inl e')
    with Cons.prems noise_builder_result [OF assms(1), of p] show ?thesis
      by (cases "valid_strength p") auto
  next
    case noise: (Inr noise_model)
    show ?thesis
    proof (cases "build_circuit code logical_state")
      case (Inl e')
      with noise Cons.prems build_circuit_result [of logical_state code] show ?thesis
        by auto
    next
      case circ: (Inr circuit)
      show ?thesis
      proof (cases "logical_error_rate_from_counts code (sim noise_model circuit shots) logical_state")
        case (Inl e')
        with noise circ Cons.prems have "e' = e"
          by (simp add: Let_def)
        with Inl rate_error show ?thesis
          by blast
      next
        case (Inr logical_error)
        with noise circ Cons.prems Cons.IH show ?thesis
          by (simp add: Let_def)
      qed
    qed
  qed
qed

lemma unknown_noise_type_distinct:
  "unknown_noise_type noise_type \<notin> {bad_probability, bad_gamma, unsupported_state}"
  "unknown_noise_type noise_type \<noteq> too_short bitstring"
  by (simp_all add: unknown_noise_type_def bad_probability_def bad_gamma_def
      unsupported_state_def too_short_def)


lemma sweep_loop_returns:
  assumes "map_of NOISE_BUILDERS noise_type = Some noise_builder"
    and "logical_state \<in> {''0'', ''1''}" and "\<forall>p \<in> set ps. valid_strength p"
    and "code \<noteq> SteaneCode7"
  shows "\<exists>results'. fst (sweep_loop sim code noise_builder logical_state shots ps (results, runs))
                       = Inr results'"
  using assms(3)
proof (induction ps arbitrary: results runs)
  case Nil
  then show ?case by simp
next
  case (Cons p ps)
  from Cons.prems noise_builder_result [OF assms(1), of p] obtain noise_model where
    noise: "noise_builder p = Inr noise_model"
    by auto
  from assms(2) build_circuit_result [of logical_state code] obtain circuit where
    circ: "build_circuit code logical_state = Inr circuit"
    by auto
  from other_codes_never_raise [OF assms(2,4)] obtain rate where
    rate: "logical_error_rate_from_counts code (sim noise_model circuit shots) logical_state
             = Inr rate"
    by blast
  from Cons.prems have "\<forall>p \<in> set ps. valid_strength p"
    by simp
  from Cons.IH [OF this] noise circ rate show ?case
    by (simp add: Let_def)
qed

subsection \<open>The noise categories\<close>

text \<open>
  C7, as stated, fails at \<open>phase_flip\<close>: the noise module defines and exports
  \<^verbatim>\<open>phase_flip_noise_model\<close>, but \<^verbatim>\<open>sweep.py\<close> neither imports it nor enters it
  in \<^verbatim>\<open>_NOISE_BUILDERS\<close>, so the sweep rejects the category before any work.
\<close>

theorem phase_flip_rejected_counterexample:
  "''phase_flip'' \<in> {''bit_flip'', ''phase_flip'', ''depolarizing'', ''amplitude_damping''}
   \<and> run_code_on_noise_grid all_zero_simulator RepetitionCode3 [1 / 10] ''phase_flip'' ''0'' 4096
       = (Inl (unknown_noise_type ''phase_flip''), [])"
  by (simp add: run_code_on_noise_grid_def known_noise_types)

text \<open>
  C7, amended. \<^verbatim>\<open>run_code_on_noise_grid\<close> raises the unknown-category error exactly
  when the noise type is outside the three keys of its table, \<open>bit_flip\<close>,
  \<open>depolarizing\<close> and \<open>amplitude_damping\<close>, whatever the code, the strengths, the
  logical state and the simulator.
\<close>

theorem unknown_noise_type_raised_iff:
  "fst (run_code_on_noise_grid sim code ps noise_type logical_state shots)
       = Inl (unknown_noise_type noise_type)
   \<longleftrightarrow> noise_type \<notin> {''bit_flip'', ''depolarizing'', ''amplitude_damping''}"
proof (cases "map_of NOISE_BUILDERS noise_type")
  case None
  then have "noise_type \<notin> {''bit_flip'', ''depolarizing'', ''amplitude_damping''}"
    by (simp add: known_noise_types split: if_splits)
  with None show ?thesis
    by (simp add: run_code_on_noise_grid_def)
next
  case (Some noise_builder)
  then have known: "noise_type \<in> {''bit_flip'', ''depolarizing'', ''amplitude_damping''}"
    by (simp add: known_noise_types split: if_splits)
  have "fst (run_code_on_noise_grid sim code ps noise_type logical_state shots)
          \<noteq> Inl (unknown_noise_type noise_type)"
  proof
    assume "fst (run_code_on_noise_grid sim code ps noise_type logical_state shots)
              = Inl (unknown_noise_type noise_type)"
    with Some have "fst (sweep_loop sim code noise_builder logical_state shots ps ([], []))
              = Inl (unknown_noise_type noise_type)"
      by (simp add: run_code_on_noise_grid_def)
    from sweep_loop_error [OF Some this] unknown_noise_type_distinct show False
      by blast
  qed
  with known show ?thesis
    by simp
qed

subsection \<open>Validation and delegation\<close>




subsection \<open>The result dictionary\<close>

lemma dict_set_keys:
  "map fst (dict_set kvs k v) = (if k \<in> set (map fst kvs) then map fst kvs else map fst kvs @ [k])"
proof (induction kvs)
  case Nil
  then show ?case by simp
next
  case (Cons kv kvs)
  obtain k' v' where kv: "kv = (k', v')"
    by (cases kv)
  show ?case
  proof (cases "k' = k")
    case True
    with kv show ?thesis by simp
  next
    case False
    with kv Cons.IH show ?thesis
      by (cases "k \<in> set (map fst kvs)") simp_all
  qed
qed

lemma first_occurrences_set: "set (first_occurrences xs) = set xs"
  by (induction xs rule: first_occurrences.induct) auto

lemma first_occurrences_distinct: "distinct (first_occurrences xs)"
  by (induction xs rule: first_occurrences.induct) (auto simp add: first_occurrences_set)

lemma first_occurrences_id: "distinct xs \<Longrightarrow> first_occurrences xs = xs"
  by (induction xs) simp_all

lemma sweep_loop_keys:
  assumes "fst (sweep_loop sim code noise_builder logical_state shots ps (results, runs))
             = Inr results'"
  shows "map fst results' =
           map fst results
           @ first_occurrences (filter (\<lambda>p. p \<notin> set (map fst results)) ps)"
  using assms
proof (induction ps arbitrary: results runs)
  case Nil
  then show ?case by simp
next
  case (Cons p ps)
  from Cons.prems obtain noise_model circuit logical_error where
    rest: "fst (sweep_loop sim code noise_builder logical_state shots ps
                 (dict_set results p logical_error, runs @ [(noise_model, circuit, shots)]))
             = Inr results'"
    by (auto simp add: Let_def split: sum.splits)
  let ?keys = "map fst results"
  show ?case
  proof (cases "p \<in> set ?keys")
    case True
    then have "map fst (dict_set results p logical_error) = ?keys"
      by (simp only: dict_set_keys if_True)
    with Cons.IH [OF rest] True show ?thesis
      by simp
  next
    case False
    then have keys: "map fst (dict_set results p logical_error) = ?keys @ [p]"
      by (simp only: dict_set_keys if_False)
    have "removeAll p (filter (\<lambda>q. q \<notin> set ?keys) ps)
            = filter (\<lambda>q. q \<notin> set (?keys @ [p])) ps"
      by (induction ps) auto
    with Cons.IH [OF rest] False keys show ?thesis
      by simp
  qed
qed

text \<open>
  C9, as stated, fails for a list that repeats a strength: the result is a Python
  dictionary, which holds one entry for a key however often it is assigned.
\<close>

theorem repeated_strength_counterexample:
  "fst (run_code_on_noise_grid all_zero_simulator RepetitionCode3 [1 / 10, 1 / 5, 1 / 10]
          ''bit_flip'' ''0'' 4096) = Inr [(1 / 10, 0), (1 / 5, 0)]"
  by (simp add: run_code_on_noise_grid_def known_noise_types bit_flip_noise_model_def
      RepetitionCode3_build_circuit_def all_zero_simulator_def
      RepetitionCode3_logical_error_rate_from_counts_def error_rate_def int_of_state_def
      RepetitionCode3_logical_out_def count_ones_def Let_def)

text \<open>
  C9, amended. When \<^verbatim>\<open>run_code_on_noise_grid\<close> returns, the keys of the result are
  the distinct requested strengths, each once, in the order of their first occurrence
  in the input list. For a list of pairwise distinct strengths the result therefore
  has exactly one pair per requested strength, in the order of the input list.
\<close>

theorem sweep_result_keys:
  assumes "fst (run_code_on_noise_grid sim code ps noise_type logical_state shots) = Inr results"
  shows "map fst results = first_occurrences ps
         \<and> distinct (map fst results)
         \<and> set (map fst results) = set ps
         \<and> (distinct ps \<longrightarrow> map fst results = ps \<and> length results = length ps)"
proof -
  from assms obtain noise_builder where
    "fst (sweep_loop sim code noise_builder logical_state shots ps ([], [])) = Inr results"
    by (auto simp add: run_code_on_noise_grid_def split: option.splits)
  from sweep_loop_keys [OF this] have keys: "map fst results = first_occurrences ps"
    by simp
  have "length results = length ps" if "distinct ps"
    using keys that first_occurrences_id [of ps] length_map [of fst results] by simp
  with keys show ?thesis
    by (simp add: first_occurrences_distinct first_occurrences_set first_occurrences_id)
qed

lemma decode_all_zero: "decode_logical_bit ''0000000'' = Inr 0"
  by (simp add: decode_logical_bit_def hamming_distance_def EVEN_CODEWORDS_def ODD_CODEWORDS_def
      SteaneCode7_n_physical_def)

lemma sweep_example:
  "fst (run_code_on_noise_grid all_zero_simulator SteaneCode7 [1 / 100, 1 / 20, 1 / 1000]
          ''depolarizing'' ''1'' 4096) = Inr [(1 / 100, 1), (1 / 20, 1), (1 / 1000, 1)]"
  by (simp add: run_code_on_noise_grid_def known_noise_types depolarizing_noise_model_def
      SteaneCode7_build_circuit_def all_zero_simulator_def SteaneCode7_n_physical_def
      SteaneCode7_logical_error_rate_from_counts_def error_rate_def int_of_state_def
      decode_all_zero [unfolded numeral_eq_Suc] numeral_eq_Suc)

theorem sweep_result_keys_witness:
  "fst (run_code_on_noise_grid all_zero_simulator SteaneCode7 [1 / 100, 1 / 20, 1 / 1000]
          ''depolarizing'' ''1'' 4096) = Inr [(1 / 100, 1), (1 / 20, 1), (1 / 1000, 1)]
   \<and> distinct [1 / 100, 1 / 20, 1 / 1000 :: rat]
   \<and> map fst [(1 / 100, 1), (1 / 20, 1), (1 / 1000 :: rat, 1 :: rat)] = [1 / 100, 1 / 20, 1 / 1000]"
  using sweep_result_keys [OF sweep_example] sweep_example by simp

end
